theory Spec2Isabelle
  imports Main "HOL-Library.AList" "HOL-Library.Sublist"
begin

section \<open>Python values\<close>

text \<open>
  A Python \<open>dict\<close> with string keys is an association list in insertion order; its keys
  are distinct. \<open>d[k] = v\<close> is \<open>AList.update k v d\<close>: it overwrites in place when the key
  is there and appends the entry otherwise, as Python does.
\<close>

type_synonym 'v dict = "(string \<times> 'v) list"

definition contains :: "'v dict \<Rightarrow> string \<Rightarrow> bool" where
  \<comment> \<open>\<open>k in d\<close>\<close>
  "contains d k = (k \<in> fst ` set d)"

definition getitem :: "'v dict \<Rightarrow> string \<Rightarrow> 'v" where
  \<comment> \<open>\<open>d[k]\<close>, used only under a guard that put \<open>k\<close> into \<open>d\<close>\<close>
  "getitem d k = the (map_of d k)"

definition dict_get :: "'v dict \<Rightarrow> string \<Rightarrow> 'v \<Rightarrow> 'v" where
  \<comment> \<open>\<open>d.get(k, default)\<close>\<close>
  "dict_get d k dflt = (case map_of d k of None \<Rightarrow> dflt | Some v \<Rightarrow> v)"

text \<open>
  A Python float is a dyadic rational \<open>m * 2 ^ e\<close>, an infinity or a NaN. Only its truth
  value and its conversion by \<open>int()\<close> are modelled.
\<close>

datatype pyfloat = Finite int int | PosInf | NegInf | NaN

text \<open>What \<open>json.loads\<close> returns.\<close>

datatype json =
    JNull
  | JBool bool
  | JInt int
  | JFloat pyfloat
  | JStr string
  | JArr "json list"
  | JObj "(string \<times> json) list"

datatype exn = TypeError | ValueError | OverflowError | AttributeError

text \<open>
  The built-in conversions of a \<open>str\<close> are library code, not code of the repository; they
  are parameters of the model: \<open>int_of_str s\<close> is \<open>Some n\<close> when \<open>int(s)\<close> returns \<open>n\<close> and
  \<open>None\<close> when it raises ValueError; \<open>float_of_str_ok s\<close> tells whether \<open>float(s)\<close> returns.
\<close>

record builtins =
  int_of_str :: "string \<Rightarrow> int option"
  float_of_str_ok :: "string \<Rightarrow> bool"

definition trunc :: "int \<Rightarrow> int \<Rightarrow> int" where
  \<comment> \<open>the integer part of \<open>m * 2 ^ e\<close>, rounded towards zero\<close>
  "trunc m e =
     (if 0 \<le> e then m * 2 ^ nat e
      else if 0 \<le> m then m div 2 ^ nat (- e)
      else - ((- m) div 2 ^ nat (- e)))"

fun py_int :: "builtins \<Rightarrow> json \<Rightarrow> exn + int" where
  \<comment> \<open>\<open>int(v)\<close>\<close>
  "py_int py JNull = Inl TypeError"
| "py_int py (JBool b) = Inr (if b then 1 else 0)"
| "py_int py (JInt n) = Inr n"
| "py_int py (JFloat (Finite m e)) = Inr (trunc m e)"
| "py_int py (JFloat PosInf) = Inl OverflowError"
| "py_int py (JFloat NegInf) = Inl OverflowError"
| "py_int py (JFloat NaN) = Inl ValueError"
| "py_int py (JStr s) = (case int_of_str py s of None \<Rightarrow> Inl ValueError | Some n \<Rightarrow> Inr n)"
| "py_int py (JArr xs) = Inl TypeError"
| "py_int py (JObj kvs) = Inl TypeError"

fun truthy :: "json \<Rightarrow> bool" where
  \<comment> \<open>the truth value of \<open>v\<close> in \<open>if v\<close>\<close>
  "truthy JNull = False"
| "truthy (JBool b) = b"
| "truthy (JInt n) = (n \<noteq> 0)"
| "truthy (JFloat (Finite m e)) = (m \<noteq> 0)"
| "truthy (JFloat f) = True"
| "truthy (JStr s) = (s \<noteq> [])"
| "truthy (JArr xs) = (xs \<noteq> [])"
| "truthy (JObj kvs) = (kvs \<noteq> [])"

fun py_in :: "string \<Rightarrow> json \<Rightarrow> exn + bool" where
  \<comment> \<open>\<open>k in v\<close> for a string \<open>k\<close>: a key of a dict, an element of a list, a substring of a
      string; TypeError on everything else\<close>
  "py_in k (JObj kvs) = Inr (contains kvs k)"
| "py_in k (JArr xs) = Inr (JStr k \<in> set xs)"
| "py_in k (JStr s) = Inr (sublist k s)"
| "py_in k v = Inl TypeError"

fun subscript :: "json \<Rightarrow> string \<Rightarrow> exn + json" where
  \<comment> \<open>\<open>v[k]\<close> for a string \<open>k\<close>, under the guard \<open>k in v\<close>\<close>
  "subscript (JObj kvs) k = Inr (getitem kvs k)"
| "subscript v k = Inl TypeError"

section \<open>vector\_clock.py\<close>

record VectorClock =
  node_id :: string
  clock :: "int dict"

definition VectorClock_init :: "string \<Rightarrow> string list option \<Rightarrow> VectorClock" where
  \<comment> \<open>\<open>__init__(node_id, all_nodes=None)\<close>; an empty list is as false as \<open>None\<close>\<close>
  "VectorClock_init nid all_nodes =
     (case all_nodes of
        Some (n # ns) \<Rightarrow>
          \<lparr>node_id = nid, clock = foldl (\<lambda>c node. AList.update node 0 c) [] (n # ns)\<rparr>
      | _ \<Rightarrow> \<lparr>node_id = nid, clock = AList.update nid 0 []\<rparr>)"

definition increment :: "VectorClock \<Rightarrow> string option \<Rightarrow> VectorClock" where
  "increment self lbl =
     (let n = (case lbl of None \<Rightarrow> node_id self | Some l \<Rightarrow> l);
          c = (if \<not> contains (clock self) n then AList.update n 0 (clock self) else clock self)
      in self\<lparr>clock := AList.update n (getitem c n + 1) c\<rparr>)"

definition update_item :: "int dict \<Rightarrow> string \<times> int \<Rightarrow> int dict" where
  \<comment> \<open>the body of the loop of \<open>update\<close>\<close>
  "update_item c = (\<lambda>(node, val).
     (let c1 = (if \<not> contains c node then AList.update node 0 c else c)
      in AList.update node (max (getitem c1 node) val) c1))"

definition update :: "VectorClock \<Rightarrow> VectorClock \<Rightarrow> VectorClock" where
  "update self other_clock = self\<lparr>clock := foldl update_item (clock self) (clock other_clock)\<rparr>"

fun compare_loop :: "int dict \<Rightarrow> int dict \<Rightarrow> string list \<Rightarrow> bool \<times> bool \<Rightarrow> bool \<times> bool" where
  \<comment> \<open>the loop of \<open>compare\<close> over \<open>all_nodes\<close>, on the flags \<open>(self_greater, other_greater)\<close>\<close>
  "compare_loop a b [] flags = flags"
| "compare_loop a b (node # nodes) (self_greater, other_greater) =
     (let self_val = dict_get a node 0; other_val = dict_get b node 0
      in if self_val > other_val then compare_loop a b nodes (True, other_greater)
         else if other_val > self_val then compare_loop a b nodes (self_greater, True)
         else compare_loop a b nodes (self_greater, other_greater))"

definition compare :: "VectorClock \<Rightarrow> VectorClock \<Rightarrow> string" where
  \<comment> \<open>\<open>other_clock\<close> is a VectorClock by its type: the TypeError branch cannot be taken.
      The set \<open>all_nodes\<close> is listed without repetition, the keys of \<open>self\<close> first.\<close>
  "compare self other_clock =
     (let all_nodes = remdups (map fst (clock self) @ map fst (clock other_clock));
          (self_greater, other_greater) =
             compare_loop (clock self) (clock other_clock) all_nodes (False, False)
      in if self_greater \<and> \<not> other_greater then ''happens-after''
         else if other_greater \<and> \<not> self_greater then ''happens-before''
         else if \<not> self_greater \<and> \<not> other_greater then ''equal''
         else ''concurrent'')"

definition to_dict :: "VectorClock \<Rightarrow> int dict" where
  "to_dict self = clock self"

fun dict_comp :: "builtins \<Rightarrow> (string \<times> json) list \<Rightarrow> int dict \<Rightarrow> exn + int dict" where
  \<comment> \<open>\<open>{k: int(v) for k, v in data.items()}\<close>, stopping at the first \<open>int(v)\<close> that raises\<close>
  "dict_comp py [] acc = Inr acc"
| "dict_comp py ((k, v) # items) acc =
     (case py_int py v of
        Inl e \<Rightarrow> Inl e
      | Inr n \<Rightarrow> dict_comp py items (AList.update k n acc))"

definition from_dict :: "builtins \<Rightarrow> json \<Rightarrow> string \<Rightarrow> exn + VectorClock" where
  \<comment> \<open>\<open>data.items()\<close> raises AttributeError when \<open>data\<close> is not a dict\<close>
  "from_dict py data nid =
     (let vc = VectorClock_init nid None
      in case data of
           JObj items \<Rightarrow>
             (case dict_comp py items [] of
                Inl e \<Rightarrow> Inl e
              | Inr c \<Rightarrow> Inr (vc\<lparr>clock := c\<rparr>))
         | _ \<Rightarrow> Inl AttributeError)"

section \<open>server.py\<close>

text \<open>
  A POST request as the handler sees it: the path, and what \<open>parse_json\<close> returned
  (\<open>JNull\<close> stands for its \<open>None\<close>: no body, or a body that is not JSON).
\<close>

record request =
  path :: string
  body :: json

record causality_block =
  server_clock :: "int dict"
  client_clock :: "int dict option"
  relationship :: string

text \<open>
  What \<open>json_response\<close> sends: the status and the keys of the payload. The key
  \<open>result\<close>, a floating-point sum or product, is not modelled.
\<close>

record response =
  status :: nat
  error :: "string option"
  vector_clock :: "int dict option"
  causality :: "causality_block option"

definition float_overflows :: "int \<Rightarrow> bool" where
  \<comment> \<open>\<open>float(n)\<close> raises OverflowError when \<open>n\<close> rounds to \<open>2 ^ 1024\<close> or beyond\<close>
  "float_overflows n = (2 ^ 1024 - 2 ^ 970 \<le> \<bar>n\<bar>)"

fun float_operand :: "builtins \<Rightarrow> json \<Rightarrow> exn + bool" where
  \<comment> \<open>\<open>float(v) if isinstance(v, (int, float, str)) else None\<close>: \<open>Inr True\<close> is a float,
      \<open>Inr False\<close> is \<open>None\<close>; a bool is an int\<close>
  "float_operand py (JBool b) = Inr True"
| "float_operand py (JInt n) = (if float_overflows n then Inl OverflowError else Inr True)"
| "float_operand py (JFloat f) = Inr True"
| "float_operand py (JStr s) = (if float_of_str_ok py s then Inr True else Inl ValueError)"
| "float_operand py v = Inr False"

text \<open>
  The result of \<open>validate_operands\<close>: \<open>Valid\<close> stands for \<open>(True, (x_val, y_val))\<close>, the two
  floats left out, and \<open>Invalid msg\<close> for \<open>(False, msg)\<close>.
\<close>

datatype operands = Valid | Invalid string

definition must_be_numbers :: "exn + operands" where
  "must_be_numbers = Inr (Invalid '''x' and 'y' must be numbers'')"

definition validate_operands :: "builtins \<Rightarrow> json \<Rightarrow> exn + operands" where
  \<comment> \<open>the \<open>except\<close> clause catches TypeError and ValueError only\<close>
  "validate_operands py payload =
     (case payload of
        JObj kvs \<Rightarrow>
          if \<not> contains kvs ''x'' \<or> \<not> contains kvs ''y''
          then Inr (Invalid ''Missing 'x' or 'y' in request body'')
          else (case float_operand py (getitem kvs ''x'') of
                  Inl e \<Rightarrow> if e = TypeError \<or> e = ValueError then must_be_numbers else Inl e
                | Inr x_val \<Rightarrow>
                    (case float_operand py (getitem kvs ''y'') of
                       Inl e \<Rightarrow> if e = TypeError \<or> e = ValueError then must_be_numbers else Inl e
                     | Inr y_val \<Rightarrow>
                         if \<not> x_val \<or> \<not> y_val then must_be_numbers else Inr Valid))
      | _ \<Rightarrow> Inr (Invalid ''Invalid JSON body''))"

definition RpcHandler_server_clock :: VectorClock where
  \<comment> \<open>the class attribute, as the module creates it\<close>
  "RpcHandler_server_clock = VectorClock_init ''server'' (Some [''server''])"

definition merge_client :: "builtins \<Rightarrow> VectorClock \<Rightarrow> json \<Rightarrow> VectorClock \<times> VectorClock option" where
  \<comment> \<open>the \<open>try\<close> block of \<open>do_POST\<close>: the server's clock and \<open>client_clock\<close> after it;
      \<open>except Exception\<close> catches every raise, and \<open>update\<close> has not run by then\<close>
  "merge_client py sc payload =
     (case subscript payload ''vector_clock'' of
        Inl e \<Rightarrow> (sc, None)
      | Inr data \<Rightarrow>
          (case from_dict py data ''client'' of
             Inl e \<Rightarrow> (sc, None)
           | Inr cc \<Rightarrow> (update sc cc, Some cc)))"

definition operation :: "builtins \<Rightarrow> VectorClock \<Rightarrow> VectorClock option \<Rightarrow> json \<Rightarrow> exn + response" where
  \<comment> \<open>the block of \<open>/add\<close>, and of \<open>/multiply\<close>: they differ in the result only\<close>
  "operation py sc cl payload =
     (case validate_operands py payload of
        Inl e \<Rightarrow> Inl e
      | Inr (Invalid data) \<Rightarrow>
          Inr \<lparr>status = 400, error = Some data, vector_clock = Some (to_dict sc), causality = None\<rparr>
      | Inr Valid \<Rightarrow>
          Inr \<lparr>status = 200, error = None, vector_clock = Some (to_dict sc),
               causality = Some
                 \<lparr>server_clock = to_dict sc,
                  client_clock = (case cl of Some cc \<Rightarrow> Some (to_dict cc) | None \<Rightarrow> None),
                  relationship =
                    (case cl of Some cc \<Rightarrow> compare sc cc | None \<Rightarrow> ''no_client_clock'')\<rparr>\<rparr>)"

definition do_POST :: "builtins \<Rightarrow> VectorClock \<Rightarrow> request \<Rightarrow> VectorClock \<times> (exn + response)" where
  \<comment> \<open>the server's clock after the request, and the response sent or the exception that
      leaves the handler\<close>
  "do_POST py sc req =
     (let payload = body req
      in if \<not> truthy payload
         then (sc, Inr \<lparr>status = 400, error = Some ''Invalid JSON'', vector_clock = None,
                        causality = None\<rparr>)
         else (case py_in ''vector_clock'' payload of
                 Inl e \<Rightarrow> (sc, Inl e)
               | Inr present \<Rightarrow>
                   (let (sc1, cl) = (if present then merge_client py sc payload else (sc, None));
                        sc2 = increment sc1 None
                    in if path req = ''/add'' then (sc2, operation py sc2 cl payload)
                       else if path req = ''/multiply'' then (sc2, operation py sc2 cl payload)
                       else (sc2, Inr \<lparr>status = 404, error = Some ''Not found'',
                                        vector_clock = Some (to_dict sc2), causality = None\<rparr>))))"

section \<open>Notions of the specification\<close>

definition nonneg :: "int dict \<Rightarrow> bool" where
  \<comment> \<open>Invariant 1 of the data model: every counter is at least 0\<close>
  "nonneg c = (\<forall>(k, v) \<in> set c. 0 \<le> v)"

definition distinct_keys :: "'v dict \<Rightarrow> bool" where
  \<comment> \<open>what every Python dict satisfies: no key occurs twice\<close>
  "distinct_keys d = distinct (map fst d)"

definition ahead :: "int dict \<Rightarrow> int dict \<Rightarrow> bool" where
  \<comment> \<open>\<open>selfAhead\<close> in the words of the specification: some label of the union of both label
      sets has a strictly greater counter on the left, an absent entry read as 0\<close>
  "ahead a b = (\<exists>l \<in> fst ` set a \<union> fst ` set b. dict_get a l 0 > dict_get b l 0)"

definition no_str :: builtins where
  \<comment> \<open>a value of the parameters for the evaluations on concrete requests below, none of
      which holds a string to convert\<close>
  "no_str = \<lparr>int_of_str = (\<lambda>s. None), float_of_str_ok = (\<lambda>s. False)\<rparr>"

section \<open>Merging\<close>

lemma contains_map_of: "contains d k = (map_of d k \<noteq> None)"
  by (simp add: contains_def map_of_eq_None_iff)

lemma update_item_eq:
  "update_item c (k, v) = AList.update k (max (dict_get c k 0) v) c"
  by (auto simp: update_item_def contains_map_of getitem_def dict_get_def update_conv' Let_def)

lemma map_of_update_item:
  "map_of (update_item c (k, v)) = (map_of c)(k \<mapsto> max (dict_get c k 0) v)"
  by (simp add: update_item_eq update_conv')

lemma dict_get_update_item:
  "dict_get (update_item c (k, v)) l 0 = (if l = k then max (dict_get c k 0) v else dict_get c l 0)"
  by (simp add: dict_get_def map_of_update_item)

lemma dict_get_merge_mono:
  "dict_get c l 0 \<le> dict_get (foldl update_item c bs) l 0"
proof (induction bs arbitrary: c)
  case Nil
  show ?case by simp
next
  case (Cons b bs)
  obtain k v where b: "b = (k, v)" by (cases b)
  have "dict_get c l 0 \<le> dict_get (update_item c (k, v)) l 0"
    by (simp add: dict_get_update_item)
  also have "\<dots> \<le> dict_get (foldl update_item (update_item c (k, v)) bs) l 0"
    by (rule Cons.IH)
  finally show ?case by (simp add: b)
qed

lemma dict_get_merge_ge:
  "(l, v) \<in> set bs \<Longrightarrow> v \<le> dict_get (foldl update_item c bs) l 0"
proof (induction bs arbitrary: c)
  case Nil
  then show ?case by simp
next
  case (Cons b bs)
  show ?case
  proof (cases "b = (l, v)")
    case True
    have "v \<le> dict_get (update_item c (l, v)) l 0"
      by (simp add: dict_get_update_item)
    also have "\<dots> \<le> dict_get (foldl update_item (update_item c (l, v)) bs) l 0"
      by (rule dict_get_merge_mono)
    finally show ?thesis by (simp add: True)
  next
    case False
    with Cons.prems have "(l, v) \<in> set bs" by simp
    then show ?thesis by (simp add: Cons.IH)
  qed
qed

lemma nonneg_dict_get: "nonneg c \<Longrightarrow> 0 \<le> dict_get c l 0"
  by (auto simp: nonneg_def dict_get_def split: option.splits dest!: map_of_SomeD)

lemma dict_get_le_merge:
  "dict_get bs l 0 \<le> max 0 (dict_get (foldl update_item c bs) l 0)"
proof (cases "map_of bs l")
  case None
  then show ?thesis by (simp add: dict_get_def)
next
  case (Some v)
  then have "(l, v) \<in> set bs" by (rule map_of_SomeD)
  then have "v \<le> dict_get (foldl update_item c bs) l 0" by (rule dict_get_merge_ge)
  with Some show ?thesis by (simp add: dict_get_def)
qed

text \<open>
  Invariant 1 is kept by every operation that changes a clock, whatever the counters of
  the clock merged in.
\<close>

lemma nonneg_alist_update: "nonneg c \<Longrightarrow> 0 \<le> v \<Longrightarrow> nonneg (AList.update k v c)"
  by (induction c) (auto simp: nonneg_def)

lemma nonneg_update_item: "nonneg c \<Longrightarrow> nonneg (update_item c kv)"
proof -
  assume c: "nonneg c"
  obtain k v where kv: "kv = (k, v)" by (cases kv)
  from c have "0 \<le> dict_get c k 0" by (rule nonneg_dict_get)
  then have "0 \<le> max (dict_get c k 0) v" by simp
  with c show ?thesis unfolding kv update_item_eq by (rule nonneg_alist_update)
qed

lemma nonneg_merge: "nonneg c \<Longrightarrow> nonneg (foldl update_item c bs)"
  by (induction bs arbitrary: c) (simp_all add: nonneg_update_item)

lemma nonneg_init: "nonneg (clock (VectorClock_init nid all_nodes))"
proof -
  have f: "nonneg (foldl (\<lambda>c node. AList.update node 0 c) c ns)" if "nonneg c" for c ns
    using that by (induction ns arbitrary: c) (simp_all add: nonneg_alist_update)
  have e: "nonneg []" by (simp add: nonneg_def)
  have 1: "nonneg (foldl (\<lambda>c node. AList.update node 0 c) [] ns)" for ns
    using e by (rule f)
  have 2: "nonneg (AList.update nid 0 [])"
    using e by (rule nonneg_alist_update) simp
  show ?thesis
  proof (cases all_nodes)
    case None
    with 2 show ?thesis by (simp add: VectorClock_init_def)
  next
    case (Some ns)
    show ?thesis
    proof (cases ns)
      case Nil
      with Some 2 show ?thesis by (simp add: VectorClock_init_def)
    next
      case (Cons n ns')
      with Some 1 [of "n # ns'"] show ?thesis
        by (simp only: VectorClock_init_def option.case list.case VectorClock.simps)
    qed
  qed
qed

lemma increment_eq:
  "clock (increment s lbl) =
     (let n = (case lbl of None \<Rightarrow> node_id s | Some l \<Rightarrow> l)
      in AList.update n (dict_get (clock s) n 0 + 1) (clock s))"
  by (auto simp: increment_def Let_def contains_map_of getitem_def dict_get_def update_conv')

lemma nonneg_increment: "nonneg (clock s) \<Longrightarrow> nonneg (clock (increment s lbl))"
proof -
  assume c: "nonneg (clock s)"
  have "0 \<le> dict_get (clock s) n 0 + 1" for n
    using nonneg_dict_get [OF c, of n] by simp
  with c show ?thesis by (simp add: increment_eq Let_def nonneg_alist_update)
qed

lemma nonneg_update: "nonneg (clock a) \<Longrightarrow> nonneg (clock (update a b))"
  by (simp add: update_def nonneg_merge)

text \<open>
  C7, as the code has it. Merge never decreases a counter: after \<open>A.update(B)\<close> the counter
  of every label \<open>l\<close> in \<open>A\<close>, an absent label read as 0, is at least what it was before.
  When the counters of \<open>A\<close> are not negative (Invariant 1, which holds of every clock that
  the server and the client merge into) it is at least the maximum of its counter in \<open>A\<close>
  before and its counter in \<open>B\<close>, absent labels read as 0. Nothing is asked of \<open>B\<close>.
\<close>

theorem merge_monotone:
  "dict_get (clock a) l 0 \<le> dict_get (clock (update a b)) l 0 \<and>
   (nonneg (clock a) \<longrightarrow>
      max (dict_get (clock a) l 0) (dict_get (clock b) l 0)
        \<le> dict_get (clock (update a b)) l 0)"
proof -
  let ?r = "dict_get (foldl update_item (clock a) (clock b)) l 0"
  have 1: "dict_get (clock a) l 0 \<le> ?r" by (rule dict_get_merge_mono)
  have 2: "max (dict_get (clock a) l 0) (dict_get (clock b) l 0) \<le> ?r" if "nonneg (clock a)"
  proof -
    have "0 \<le> dict_get (clock a) l 0" using that by (rule nonneg_dict_get)
    with 1 have "0 \<le> ?r" by simp
    moreover have "dict_get (clock b) l 0 \<le> max 0 ?r" by (rule dict_get_le_merge)
    ultimately have "dict_get (clock b) l 0 \<le> ?r" by simp
    with 1 show ?thesis by simp
  qed
  from 1 2 show ?thesis by (simp add: update_def)
qed

theorem merge_monotone_witness:
  "nonneg (clock \<lparr>node_id = ''A'', clock = [(''A'', 1)]\<rparr>) \<and>
   max (dict_get (clock \<lparr>node_id = ''A'', clock = [(''A'', 1)]\<rparr>) ''B'' 0)
       (dict_get (clock \<lparr>node_id = ''B'', clock = [(''A'', 0), (''B'', 2)]\<rparr>) ''B'' 0)
     \<le> dict_get (clock (update \<lparr>node_id = ''A'', clock = [(''A'', 1)]\<rparr>
                                \<lparr>node_id = ''B'', clock = [(''A'', 0), (''B'', 2)]\<rparr>)) ''B'' 0"
proof -
  have h: "nonneg (clock \<lparr>node_id = ''A'', clock = [(''A'', 1)]\<rparr>)"
    by (simp add: nonneg_def)
  with merge_monotone [where l = "''B''" and a = "\<lparr>node_id = ''A'', clock = [(''A'', 1)]\<rparr>"
        and b = "\<lparr>node_id = ''B'', clock = [(''A'', 0), (''B'', 2)]\<rparr>"]
  show ?thesis by blast
qed

text \<open>
  C7 as stated fails on a clock with a negative counter, which \<open>from_dict\<close> builds: merging
  \<open>VectorClock("B")\<close> into the clock \<open>{x: -1}\<close> leaves \<open>x\<close> at -1, below the maximum 0 of -1
  and the 0 read for the label \<open>x\<close> absent from \<open>B\<close>.
\<close>

theorem merge_below_max_negative:
  "from_dict no_str (JObj [(''x'', JInt (- 1))]) ''A''
     = Inr \<lparr>node_id = ''A'', clock = [(''x'', - 1)]\<rparr> \<and>
   clock (update \<lparr>node_id = ''A'', clock = [(''x'', - 1)]\<rparr> (VectorClock_init ''B'' None))
     = [(''x'', - 1), (''B'', 0)] \<and>
   dict_get (clock (update \<lparr>node_id = ''A'', clock = [(''x'', - 1)]\<rparr>
                            (VectorClock_init ''B'' None))) ''x'' 0
     < max (dict_get (clock \<lparr>node_id = ''A'', clock = [(''x'', - 1)]\<rparr>) ''x'' 0)
           (dict_get (clock (VectorClock_init ''B'' None)) ''x'' 0)"
  by (simp add: from_dict_def VectorClock_init_def update_def update_item_def contains_def
      getitem_def dict_get_def)

lemma merge_fixed:
  "(\<forall>(k, v) \<in> set bs. \<exists>w. map_of c k = Some w \<and> v \<le> w) \<Longrightarrow> foldl update_item c bs = c"
proof (induction bs)
  case Nil
  show ?case by simp
next
  case (Cons b bs)
  obtain k v where b: "b = (k, v)" by (cases b)
  from Cons.prems b obtain w where w: "map_of c k = Some w" "v \<le> w" by auto
  then have "update_item c (k, v) = c"
    by (simp add: update_item_eq dict_get_def update_triv)
  with Cons show ?case by (simp add: b)
qed

lemma keys_update_item: "fst ` set (update_item c (k, v)) = insert k (fst ` set c)"
  by (simp add: update_item_eq dom_update)

lemma keys_merge: "fst ` set (foldl update_item c bs) = fst ` set c \<union> fst ` set bs"
proof (induction bs arbitrary: c)
  case Nil
  show ?case by simp
next
  case (Cons b bs)
  obtain k v where b: "b = (k, v)" by (cases b)
  show ?case by (simp add: b Cons.IH keys_update_item)
qed

lemma merge_covers:
  assumes kv: "(k, v) \<in> set bs"
  shows "\<exists>w. map_of (foldl update_item c bs) k = Some w \<and> v \<le> w"
proof -
  from kv have "k \<in> fst ` set bs" by (rule image_eqI [rotated]) simp
  then have "k \<in> fst ` set (foldl update_item c bs)" by (simp add: keys_merge)
  then have "map_of (foldl update_item c bs) k \<noteq> None" by (simp add: map_of_eq_None_iff)
  then obtain w where w: "map_of (foldl update_item c bs) k = Some w" by blast
  have "v \<le> dict_get (foldl update_item c bs) k 0" using kv by (rule dict_get_merge_ge)
  with w show ?thesis by (simp add: dict_get_def)
qed

lemma map_of_merge:
  "distinct (map fst bs) \<Longrightarrow>
   map_of (foldl update_item c bs) l =
     (case map_of bs l of None \<Rightarrow> map_of c l | Some v \<Rightarrow> Some (max (dict_get c l 0) v))"
proof (induction bs arbitrary: c)
  case Nil
  show ?case by simp
next
  case (Cons b bs)
  obtain k v where b: "b = (k, v)" by (cases b)
  from Cons.prems b have k: "map_of bs k = None" and d: "distinct (map fst bs)"
    by (simp_all add: map_of_eq_None_iff)
  have ih: "map_of (foldl update_item (update_item c (k, v)) bs) l =
     (case map_of bs l of None \<Rightarrow> map_of (update_item c (k, v)) l
      | Some w \<Rightarrow> Some (max (dict_get (update_item c (k, v)) l 0) w))"
    by (rule Cons.IH [OF d])
  show ?case
  proof (cases "l = k")
    case True
    with k have "map_of bs l = None" by simp
    with ih True show ?thesis by (simp add: b map_of_update_item)
  next
    case False
    with ih show ?thesis
      by (simp add: b map_of_update_item dict_get_update_item split: option.split)
  qed
qed

lemma nonneg_map_of: "nonneg c \<Longrightarrow> map_of c l = Some v \<Longrightarrow> 0 \<le> v"
  by (auto simp: nonneg_def dest!: map_of_SomeD)

lemma merge_commute:
  assumes "distinct_keys a" "distinct_keys b" "nonneg a" "nonneg b"
  shows "map_of (foldl update_item a b) = map_of (foldl update_item b a)"
proof
  fix l
  from assms have da: "distinct (map fst a)" and db: "distinct (map fst b)"
    by (simp_all add: distinct_keys_def)
  show "map_of (foldl update_item a b) l = map_of (foldl update_item b a) l"
  proof (cases "map_of a l")
    case None
    note a = None
    show ?thesis
    proof (cases "map_of b l")
      case None
      with a show ?thesis by (simp add: map_of_merge [OF da] map_of_merge [OF db])
    next
      case (Some v)
      with assms(4) have "0 \<le> v" by (rule nonneg_map_of)
      with a Some show ?thesis
        by (simp add: map_of_merge [OF da] map_of_merge [OF db] dict_get_def)
    qed
  next
    case (Some w)
    note a = Some
    with assms(3) have w: "0 \<le> w" by (rule nonneg_map_of)
    show ?thesis
    proof (cases "map_of b l")
      case None
      with a w show ?thesis
        by (simp add: map_of_merge [OF da] map_of_merge [OF db] dict_get_def)
    next
      case (Some v)
      with a show ?thesis
        by (simp add: map_of_merge [OF da] map_of_merge [OF db] dict_get_def max.commute)
    qed
  qed
qed

text \<open>
  C8, as the code has it. Merge is idempotent: \<open>A.update(B)\<close> run twice leaves \<open>A\<close> as one
  run does, for all clocks. The labels of the merged clock are the union of both label
  sets. Merge is commutative on clocks whose counters are not negative (Invariant 1):
  for such dicts \<open>A.update(B)\<close> and \<open>B.update(A)\<close> hold the same counter for every label,
  which is equality of the two dicts in Python.
\<close>

theorem merge_idempotent_commutative:
  "update (update a b) b = update a b \<and>
   fst ` set (clock (update a b)) = fst ` set (clock a) \<union> fst ` set (clock b) \<and>
   (distinct_keys (clock a) \<and> distinct_keys (clock b) \<and> nonneg (clock a) \<and> nonneg (clock b)
      \<longrightarrow> map_of (clock (update a b)) = map_of (clock (update b a)))"
proof -
  have "foldl update_item (foldl update_item (clock a) (clock b)) (clock b)
          = foldl update_item (clock a) (clock b)"
    by (rule merge_fixed) (auto dest: merge_covers)
  then have 1: "update (update a b) b = update a b" by (simp add: update_def)
  have 2: "fst ` set (clock (update a b)) = fst ` set (clock a) \<union> fst ` set (clock b)"
    by (simp add: update_def keys_merge)
  have 3: "map_of (clock (update a b)) = map_of (clock (update b a))"
    if "distinct_keys (clock a)" "distinct_keys (clock b)" "nonneg (clock a)" "nonneg (clock b)"
    using that by (simp add: update_def merge_commute)
  from 1 2 3 show ?thesis by blast
qed

theorem merge_idempotent_commutative_witness:
  "distinct_keys (clock \<lparr>node_id = ''A'', clock = [(''A'', 1), (''B'', 0)]\<rparr>) \<and>
   distinct_keys (clock \<lparr>node_id = ''B'', clock = [(''B'', 2), (''C'', 1)]\<rparr>) \<and>
   nonneg (clock \<lparr>node_id = ''A'', clock = [(''A'', 1), (''B'', 0)]\<rparr>) \<and>
   nonneg (clock \<lparr>node_id = ''B'', clock = [(''B'', 2), (''C'', 1)]\<rparr>) \<and>
   map_of (clock (update \<lparr>node_id = ''A'', clock = [(''A'', 1), (''B'', 0)]\<rparr>
                         \<lparr>node_id = ''B'', clock = [(''B'', 2), (''C'', 1)]\<rparr>))
     = map_of (clock (update \<lparr>node_id = ''B'', clock = [(''B'', 2), (''C'', 1)]\<rparr>
                             \<lparr>node_id = ''A'', clock = [(''A'', 1), (''B'', 0)]\<rparr>))"
proof -
  have h: "distinct_keys (clock \<lparr>node_id = ''A'', clock = [(''A'', 1), (''B'', 0)]\<rparr>)"
    "distinct_keys (clock \<lparr>node_id = ''B'', clock = [(''B'', 2), (''C'', 1)]\<rparr>)"
    "nonneg (clock \<lparr>node_id = ''A'', clock = [(''A'', 1), (''B'', 0)]\<rparr>)"
    "nonneg (clock \<lparr>node_id = ''B'', clock = [(''B'', 2), (''C'', 1)]\<rparr>)"
    by (simp_all add: distinct_keys_def nonneg_def)
  with merge_idempotent_commutative
    [of "\<lparr>node_id = ''A'', clock = [(''A'', 1), (''B'', 0)]\<rparr>"
        "\<lparr>node_id = ''B'', clock = [(''B'', 2), (''C'', 1)]\<rparr>"]
  show ?thesis by blast
qed

text \<open>
  C8 as stated fails on a clock with a negative counter: the server's initial clock and
  the imported clock \<open>{x: -1}\<close> merge to \<open>{server: 0, x: 0}\<close> one way and to
  \<open>{x: -1, server: 0}\<close> the other way.
\<close>

theorem merge_not_commutative_negative:
  "from_dict no_str (JObj [(''x'', JInt (- 1))]) ''client''
     = Inr \<lparr>node_id = ''client'', clock = [(''x'', - 1)]\<rparr> \<and>
   clock (update RpcHandler_server_clock \<lparr>node_id = ''client'', clock = [(''x'', - 1)]\<rparr>)
     = [(''server'', 0), (''x'', 0)] \<and>
   clock (update \<lparr>node_id = ''client'', clock = [(''x'', - 1)]\<rparr> RpcHandler_server_clock)
     = [(''x'', - 1), (''server'', 0)] \<and>
   map_of [(''server'', 0), (''x'', 0 :: int)] ''x'' \<noteq> map_of [(''x'', - 1), (''server'', 0)] ''x''"
  by (simp add: from_dict_def VectorClock_init_def update_def update_item_def contains_def
      getitem_def RpcHandler_server_clock_def)

section \<open>Comparing\<close>

lemma compare_loop_eq:
  "compare_loop a b ns (sg, og) =
     (sg \<or> (\<exists>l \<in> set ns. dict_get a l 0 > dict_get b l 0),
      og \<or> (\<exists>l \<in> set ns. dict_get b l 0 > dict_get a l 0))"
  by (induction ns arbitrary: sg og) (auto simp: Let_def)

lemma compare_eq:
  "compare a b =
     (if ahead (clock a) (clock b) \<and> \<not> ahead (clock b) (clock a) then ''happens-after''
      else if ahead (clock b) (clock a) \<and> \<not> ahead (clock a) (clock b) then ''happens-before''
      else if \<not> ahead (clock a) (clock b) \<and> \<not> ahead (clock b) (clock a) then ''equal''
      else ''concurrent'')"
proof -
  have s: "set (remdups (map fst (clock a) @ map fst (clock b)))
             = fst ` set (clock a) \<union> fst ` set (clock b)"
    by simp
  have c: "fst ` set (clock b) \<union> fst ` set (clock a) = fst ` set (clock a) \<union> fst ` set (clock b)"
    by (rule Un_commute)
  show ?thesis
    unfolding compare_def Let_def compare_loop_eq s ahead_def c by simp
qed

lemma not_ahead_self: "\<not> ahead c c"
  by (simp add: ahead_def)

text \<open>
  C5. \<open>compare\<close> follows the algorithm of the specification over the union of the label
  sets, absent labels read as 0: with \<open>ahead\<close> the specification's \<open>selfAhead\<close>, the result is
  after (the string \<open>happens-after\<close> in the code) iff the left clock is ahead and the right
  one is not, before (\<open>happens-before\<close>) in the symmetric case, \<open>equal\<close> iff neither is ahead,
  \<open>concurrent\<close> iff both are. So a clock compared with itself, or with a snapshot of its
  own counters under any owner, is \<open>equal\<close>.
\<close>

theorem compare_follows_spec:
  "(compare a b = ''happens-after'') = (ahead (clock a) (clock b) \<and> \<not> ahead (clock b) (clock a)) \<and>
   (compare a b = ''happens-before'') = (ahead (clock b) (clock a) \<and> \<not> ahead (clock a) (clock b)) \<and>
   (compare a b = ''equal'') = (\<not> ahead (clock a) (clock b) \<and> \<not> ahead (clock b) (clock a)) \<and>
   (compare a b = ''concurrent'') = (ahead (clock a) (clock b) \<and> ahead (clock b) (clock a)) \<and>
   compare a a = ''equal'' \<and>
   compare a \<lparr>node_id = n, clock = to_dict a\<rparr> = ''equal''"
  by (auto simp: compare_eq not_ahead_self to_dict_def)

text \<open>
  C6. \<open>compare\<close> is anti-symmetric: if \<open>A.compare(B)\<close> is after (\<open>happens-after\<close>) then
  \<open>B.compare(A)\<close> is before (\<open>happens-before\<close>), and if \<open>A.compare(B)\<close> is before then
  \<open>B.compare(A)\<close> is after.
\<close>

theorem compare_antisymmetric:
  "(compare a b = ''happens-after'' \<longrightarrow> compare b a = ''happens-before'') \<and>
   (compare a b = ''happens-before'' \<longrightarrow> compare b a = ''happens-after'')"
  by (auto simp: compare_eq split: if_splits)

theorem compare_antisymmetric_witness:
  "(compare \<lparr>node_id = ''A'', clock = [(''A'', 1), (''B'', 0)]\<rparr>
            \<lparr>node_id = ''B'', clock = [(''A'', 0), (''B'', 0)]\<rparr> = ''happens-after'' \<and>
    compare \<lparr>node_id = ''B'', clock = [(''A'', 0), (''B'', 0)]\<rparr>
            \<lparr>node_id = ''A'', clock = [(''A'', 1), (''B'', 0)]\<rparr> = ''happens-before'') \<and>
   (compare \<lparr>node_id = ''B'', clock = [(''A'', 0), (''B'', 0)]\<rparr>
            \<lparr>node_id = ''A'', clock = [(''A'', 1), (''B'', 0)]\<rparr> = ''happens-before'' \<and>
    compare \<lparr>node_id = ''A'', clock = [(''A'', 1), (''B'', 0)]\<rparr>
            \<lparr>node_id = ''B'', clock = [(''A'', 0), (''B'', 0)]\<rparr> = ''happens-after'')"
proof -
  have 1: "compare \<lparr>node_id = ''A'', clock = [(''A'', 1), (''B'', 0)]\<rparr>
            \<lparr>node_id = ''B'', clock = [(''A'', 0), (''B'', 0)]\<rparr> = ''happens-after''"
    by (simp add: compare_def dict_get_def)
  have 2: "compare \<lparr>node_id = ''B'', clock = [(''A'', 0), (''B'', 0)]\<rparr>
            \<lparr>node_id = ''A'', clock = [(''A'', 1), (''B'', 0)]\<rparr> = ''happens-before''"
    by (simp add: compare_def dict_get_def)
  from 1 2
    compare_antisymmetric [of "\<lparr>node_id = ''A'', clock = [(''A'', 1), (''B'', 0)]\<rparr>"
                              "\<lparr>node_id = ''B'', clock = [(''A'', 0), (''B'', 0)]\<rparr>"]
    compare_antisymmetric [of "\<lparr>node_id = ''B'', clock = [(''A'', 0), (''B'', 0)]\<rparr>"
                              "\<lparr>node_id = ''A'', clock = [(''A'', 1), (''B'', 0)]\<rparr>"]
  show ?thesis by blast
qed

section \<open>Importing a snapshot\<close>

lemma update_fresh: "k \<notin> fst ` set al \<Longrightarrow> AList.update k v al = al @ [(k, v)]"
  by (induction al) auto

lemma dict_comp_isl:
  "isl (dict_comp py items acc) = (\<exists>v \<in> snd ` set items. isl (py_int py v))"
proof (induction items arbitrary: acc)
  case Nil
  show ?case by simp
next
  case (Cons kv items)
  obtain k v where kv: "kv = (k, v)" by (cases kv)
  show ?case by (cases "py_int py v") (simp_all add: kv Cons.IH)
qed

lemma dict_comp_ints:
  "dict_comp py (map (\<lambda>(k, n). (k, JInt n)) c) acc
     = Inr (foldl (\<lambda>d (k, n). AList.update k n d) acc c)"
proof (induction c arbitrary: acc)
  case Nil
  show ?case by simp
next
  case (Cons kn c)
  obtain k n where kn: "kn = (k, n)" by (cases kn)
  show ?case by (simp add: kn Cons.IH)
qed

lemma dict_comp_distinct:
  assumes "dict_comp py items acc = Inr c" "distinct (map fst items)"
    "fst ` set acc \<inter> fst ` set items = {}"
  shows "map (\<lambda>(k, n). (k, Inr n :: exn + int)) c
           = map (\<lambda>(k, n). (k, Inr n)) acc @ map (\<lambda>(k, v). (k, py_int py v)) items"
  using assms
proof (induction items arbitrary: acc)
  case Nil
  then show ?case by simp
next
  case (Cons kv items)
  obtain k v where kv: "kv = (k, v)" by (cases kv)
  from Cons.prems(1) kv obtain n where n: "py_int py v = Inr n"
    and rest: "dict_comp py items (AList.update k n acc) = Inr c"
    by (cases "py_int py v") simp_all
  from Cons.prems(3) kv have fresh: "k \<notin> fst ` set acc" by auto
  then have upd: "AList.update k n acc = acc @ [(k, n)]" by (rule update_fresh)
  from Cons.prems(2) kv have d: "distinct (map fst items)" and k: "k \<notin> fst ` set items"
    by simp_all
  from Cons.prems(3) kv k have disj: "fst ` set (acc @ [(k, n)]) \<inter> fst ` set items = {}"
    by auto
  from rest have "dict_comp py items (acc @ [(k, n)]) = Inr c" by (simp add: upd)
  from Cons.IH [OF this d disj] show ?case by (simp add: kv n)
qed

text \<open>
  C10. A successful \<open>from_dict(data, owner)\<close> on a dict \<open>data\<close> returns a clock of that owner
  whose counters are exactly \<open>{k: int(v)}\<close> for the entries \<open>(k, v)\<close> of \<open>data\<close>, in the same
  order; so when \<open>owner\<close> is not a key of \<open>data\<close> the clock has no entry for its own owner:
  the \<open>{owner: 0}\<close> of \<open>__init__\<close> is replaced, not kept.
\<close>

theorem from_dict_counters:
  assumes "distinct_keys items" "from_dict py (JObj items) owner = Inr vc"
  shows "node_id vc = owner \<and>
         map (\<lambda>(k, n). (k, Inr n :: exn + int)) (clock vc)
           = map (\<lambda>(k, v). (k, py_int py v)) items \<and>
         (\<not> contains items owner \<longrightarrow> \<not> contains (clock vc) owner)"
proof -
  from assms(2) obtain c where c: "dict_comp py items [] = Inr c"
    and vc: "vc = \<lparr>node_id = owner, clock = c\<rparr>"
    by (cases "dict_comp py items []") (auto simp: from_dict_def VectorClock_init_def)
  from assms(1) have "distinct (map fst items)" by (simp add: distinct_keys_def)
  with c have m: "map (\<lambda>(k, n). (k, Inr n :: exn + int)) c
           = map (\<lambda>(k, v). (k, py_int py v)) items"
    using dict_comp_distinct [of py items "[]" c] by simp
  then have "map fst (map (\<lambda>(k, n). (k, Inr n :: exn + int)) c)
           = map fst (map (\<lambda>(k, v). (k, py_int py v)) items)" by simp
  then have "map fst c = map fst items" by (simp add: case_prod_unfold comp_def)
  then have "fst ` set c = fst ` set items" by (metis set_map)
  with m vc show ?thesis by (simp add: contains_def)
qed

theorem from_dict_counters_witness:
  "distinct_keys [(''A'', JInt 2), (''B'', JFloat (Finite 3 (- 1)))] \<and>
   from_dict no_str (JObj [(''A'', JInt 2), (''B'', JFloat (Finite 3 (- 1)))]) ''client''
     = Inr \<lparr>node_id = ''client'', clock = [(''A'', 2), (''B'', 1)]\<rparr> \<and>
   \<not> contains [(''A'', JInt 2), (''B'', JFloat (Finite 3 (- 1)))] ''client'' \<and>
   \<not> contains (clock \<lparr>node_id = ''client'', clock = [(''A'', 2), (''B'', 1)]\<rparr>) ''client''"
proof -
  have 1: "distinct_keys [(''A'', JInt 2), (''B'', JFloat (Finite 3 (- 1)))]"
    by (simp add: distinct_keys_def)
  have 2: "from_dict no_str (JObj [(''A'', JInt 2), (''B'', JFloat (Finite 3 (- 1)))]) ''client''
     = Inr \<lparr>node_id = ''client'', clock = [(''A'', 2), (''B'', 1)]\<rparr>"
    by (simp add: from_dict_def VectorClock_init_def trunc_def)
  have 3: "\<not> contains [(''A'', JInt 2), (''B'', JFloat (Finite 3 (- 1)))] ''client''"
    by (simp add: contains_def)
  from 1 2 3 from_dict_counters [OF 1 2] show ?thesis by blast
qed

lemma dict_comp_error_source:
  "dict_comp py items acc = Inl e \<Longrightarrow> \<exists>v \<in> snd ` set items. py_int py v = Inl e"
proof (induction items arbitrary: acc)
  case Nil
  then show ?case by simp
next
  case (Cons kv items)
  obtain k v where kv: "kv = (k, v)" by (cases kv)
  show ?case
  proof (cases "py_int py v")
    case (Inl e')
    with Cons.prems kv have "e' = e" by simp
    with Inl kv show ?thesis by auto
  next
    case (Inr n)
    with Cons.prems kv have "dict_comp py items (AList.update k n acc) = Inl e" by simp
    then have "\<exists>v \<in> snd ` set items. py_int py v = Inl e" by (rule Cons.IH)
    then show ?thesis by auto
  qed
qed

lemma dict_comp_first_error:
  "\<forall>u \<in> snd ` set pre. \<not> isl (py_int py u) \<Longrightarrow> py_int py v = Inl e \<Longrightarrow>
   dict_comp py (pre @ (k, v) # post) acc = Inl e"
proof (induction pre arbitrary: acc)
  case Nil
  then show ?case by simp
next
  case (Cons kv pre)
  obtain k' v' where kv: "kv = (k', v')" by (cases kv)
  from Cons.prems(1) kv obtain n where n: "py_int py v' = Inr n"
    by (cases "py_int py v'") auto
  from Cons.prems(1) have "\<forall>u \<in> snd ` set pre. \<not> isl (py_int py u)" by simp
  from Cons.IH [OF this Cons.prems(2)] show ?case by (simp add: kv n)
qed

lemma trunc_towards_zero:
  "trunc m x = (if 0 \<le> x then m * 2 ^ nat x else sgn m * (\<bar>m\<bar> div 2 ^ nat (- x)))"
  by (simp add: trunc_def sgn_if)

text \<open>
  C1, as the code has it. \<open>from_dict\<close> applies \<open>int()\<close> to every value and checks nothing
  else. On a dict it raises exactly when \<open>int()\<close> raises on one of the values, and what it
  raises is the exception that \<open>int()\<close> raised on the first such value. It then returns no
  clock, and the \<open>try\<close> block of the handler, the import having failed, leaves the server's
  clock as it was. A mapping to integers of any sign is imported as it is, and a finite
  float \<open>m * 2 ^ x\<close> is imported truncated towards zero: its sign with the integer part of
  its magnitude.
\<close>

theorem from_dict_fails_iff:
  "isl (from_dict py (JObj items) nid) = (\<exists>v \<in> snd ` set items. isl (py_int py v)) \<and>
   (from_dict py (JObj items) nid = Inl e \<longrightarrow> (\<exists>v \<in> snd ` set items. py_int py v = Inl e)) \<and>
   (items = pre @ (k, v) # post \<and> (\<forall>u \<in> snd ` set pre. \<not> isl (py_int py u)) \<and>
    py_int py v = Inl e \<longrightarrow> from_dict py (JObj items) nid = Inl e) \<and>
   from_dict py (JObj (map (\<lambda>(k, n). (k, JInt n)) c)) nid
     = Inr \<lparr>node_id = nid, clock = foldl (\<lambda>d (k, n). AList.update k n d) [] c\<rparr> \<and>
   from_dict py (JObj [(l, JFloat (Finite m x))]) nid
     = Inr \<lparr>node_id = nid,
            clock = [(l, if 0 \<le> x then m * 2 ^ nat x
                         else sgn m * (\<bar>m\<bar> div 2 ^ nat (- x)))]\<rparr> \<and>
   (subscript payload ''vector_clock'' = Inr data \<and> isl (from_dict py data ''client'') \<longrightarrow>
      merge_client py sc payload = (sc, None))"
proof -
  have "isl (from_dict py (JObj items) nid) = isl (dict_comp py items [])"
    by (cases "dict_comp py items []") (simp_all add: from_dict_def)
  then have 1: "isl (from_dict py (JObj items) nid) = (\<exists>v \<in> snd ` set items. isl (py_int py v))"
    by (simp add: dict_comp_isl)
  have 2: "\<exists>v \<in> snd ` set items. py_int py v = Inl e"
    if "from_dict py (JObj items) nid = Inl e"
  proof -
    from that have "dict_comp py items [] = Inl e"
      by (cases "dict_comp py items []") (simp_all add: from_dict_def)
    then show ?thesis by (rule dict_comp_error_source)
  qed
  have 3: "from_dict py (JObj items) nid = Inl e"
    if "items = pre @ (k, v) # post" "\<forall>u \<in> snd ` set pre. \<not> isl (py_int py u)"
      "py_int py v = Inl e"
    using dict_comp_first_error [OF that(2,3), of k post "[]"]
    by (simp add: from_dict_def that(1))
  have 4: "from_dict py (JObj (map (\<lambda>(k, n). (k, JInt n)) c)) nid
     = Inr \<lparr>node_id = nid, clock = foldl (\<lambda>d (k, n). AList.update k n d) [] c\<rparr>"
    by (simp add: from_dict_def dict_comp_ints VectorClock_init_def)
  have 5: "from_dict py (JObj [(l, JFloat (Finite m x))]) nid
     = Inr \<lparr>node_id = nid,
            clock = [(l, if 0 \<le> x then m * 2 ^ nat x
                         else sgn m * (\<bar>m\<bar> div 2 ^ nat (- x)))]\<rparr>"
    by (simp add: from_dict_def VectorClock_init_def trunc_towards_zero)
  have 6: "merge_client py sc payload = (sc, None)"
    if "subscript payload ''vector_clock'' = Inr data" "isl (from_dict py data ''client'')"
    using that by (cases "from_dict py data ''client''") (simp_all add: merge_client_def)
  from 1 2 3 4 5 6 show ?thesis by blast
qed

theorem from_dict_fails_iff_witness:
  "[(''A'', JInt (- 1)), (''B'', JNull), (''C'', JFloat NaN)]
     = [(''A'', JInt (- 1))] @ (''B'', JNull) # [(''C'', JFloat NaN)] \<and>
   py_int no_str (JInt (- 1)) = Inr (- 1) \<and>
   py_int no_str JNull = Inl TypeError \<and>
   from_dict no_str (JObj [(''A'', JInt (- 1)), (''B'', JNull), (''C'', JFloat NaN)]) ''client''
     = Inl TypeError \<and>
   subscript (JObj [(''vector_clock'',
                     JObj [(''A'', JInt (- 1)), (''B'', JNull), (''C'', JFloat NaN)])])
       ''vector_clock''
     = Inr (JObj [(''A'', JInt (- 1)), (''B'', JNull), (''C'', JFloat NaN)]) \<and>
   merge_client no_str RpcHandler_server_clock
       (JObj [(''vector_clock'',
               JObj [(''A'', JInt (- 1)), (''B'', JNull), (''C'', JFloat NaN)])])
     = (RpcHandler_server_clock, None) \<and>
   from_dict no_str (JObj [(''F'', JFloat (Finite (- 5) (- 1)))]) ''client''
     = Inr \<lparr>node_id = ''client'', clock = [(''F'', - 2)]\<rparr>"
proof -
  let ?items = "[(''A'', JInt (- 1)), (''B'', JNull), (''C'', JFloat NaN)]"
  have 1: "?items = [(''A'', JInt (- 1))] @ (''B'', JNull) # [(''C'', JFloat NaN)]" by simp
  have 2: "\<forall>u \<in> snd ` set [(''A'', JInt (- 1))]. \<not> isl (py_int no_str u)" by simp
  have a: "py_int no_str (JInt (- 1)) = Inr (- 1)" by simp
  have 3: "py_int no_str JNull = Inl TypeError" by simp
  have 4: "subscript (JObj [(''vector_clock'', JObj ?items)]) ''vector_clock'' = Inr (JObj ?items)"
    by (simp add: getitem_def)
  note t = from_dict_fails_iff
    [where py = no_str and items = ?items and nid = "''client''" and e = TypeError
       and pre = "[(''A'', JInt (- 1))]" and k = "''B''" and v = JNull
       and post = "[(''C'', JFloat NaN)]" and payload = "JObj [(''vector_clock'', JObj ?items)]"
       and data = "JObj ?items" and sc = RpcHandler_server_clock
       and l = "''F''" and m = "- 5" and x = "- 1"]
  from t 1 2 3 have f: "from_dict no_str (JObj ?items) ''client'' = Inl TypeError" by blast
  then have "isl (from_dict no_str (JObj ?items) ''client'')" by simp
  with t 4 have m: "merge_client no_str RpcHandler_server_clock
       (JObj [(''vector_clock'', JObj ?items)]) = (RpcHandler_server_clock, None)" by blast
  from t have "from_dict no_str (JObj [(''F'', JFloat (Finite (- 5) (- 1)))]) ''client''
     = Inr \<lparr>node_id = ''client'',
            clock = [(''F'', if (0::int) \<le> - 1 then - 5 * 2 ^ nat (- 1)
                         else sgn (- 5) * (\<bar>- 5\<bar> div 2 ^ nat (- (- 1))))]\<rparr>" by blast
  then have g: "from_dict no_str (JObj [(''F'', JFloat (Finite (- 5) (- 1)))]) ''client''
     = Inr \<lparr>node_id = ''client'', clock = [(''F'', - 2)]\<rparr>" by simp
  from 1 a 3 f 4 m g show ?thesis by blast
qed

text \<open>
  C1 as stated fails: a negative integer and the non-integer 2.5 (\<open>5 * 2 ^ -1\<close>) are
  imported, the first unchanged and the second as 2, and nothing is raised.
\<close>

theorem from_dict_accepts_negative:
  "from_dict no_str (JObj [(''A'', JInt (- 1)), (''B'', JFloat (Finite 5 (- 1)))]) ''client''
     = Inr \<lparr>node_id = ''client'', clock = [(''A'', - 1), (''B'', 2)]\<rparr>"
  by (simp add: from_dict_def VectorClock_init_def trunc_def)

section \<open>Handling a request\<close>

lemma map_of_contains: "map_of d k = Some v \<Longrightarrow> contains d k \<and> getitem d k = v"
  by (simp add: contains_map_of getitem_def)


lemma merge_client_dict:
  "merge_client py sc (JObj kvs) =
     (case from_dict py (getitem kvs ''vector_clock'') ''client'' of
        Inl e \<Rightarrow> (sc, None)
      | Inr cc \<Rightarrow> (update sc cc, Some cc))"
  by (simp add: merge_client_def)



lemma compare_labels:
  "compare a b \<in> {''happens-before'', ''happens-after'', ''equal'', ''concurrent''}"
  by (simp add: compare_eq)

lemma operation_relationship:
  assumes "operation py sc cl p = Inr r" "causality r = Some c"
  shows "relationship c \<in> {''happens-before'', ''happens-after'', ''equal'', ''concurrent'',
                            ''no_client_clock''}"
proof (cases cl)
  case None
  with assms show ?thesis
    by (auto simp: operation_def split: sum.splits operands.splits)
next
  case (Some cc)
  with assms have "relationship c = compare sc cc"
    by (auto simp: operation_def split: sum.splits operands.splits)
  with compare_labels [of sc cc] show ?thesis by auto
qed

lemma do_POST_truthy:
  "truthy (body req) \<Longrightarrow> py_in ''vector_clock'' (body req) = Inr present \<Longrightarrow>
   do_POST py sc req =
     (let m = (if present then merge_client py sc (body req) else (sc, None));
          sc2 = increment (fst m) None
      in (sc2, if path req = ''/add'' \<or> path req = ''/multiply''
               then operation py sc2 (snd m) (body req)
               else Inr \<lparr>status = 404, error = Some ''Not found'',
                         vector_clock = Some (to_dict sc2), causality = None\<rparr>))"
  by (simp add: do_POST_def Let_def split: prod.split)

lemma do_POST_response:
  assumes "snd (do_POST py sc req) = Inr r" "causality r = Some c"
  shows "\<exists>sc2 cl. operation py sc2 cl (body req) = Inr r"
proof (cases "truthy (body req)")
  case False
  with assms show ?thesis by (auto simp: do_POST_def)
next
  case True
  show ?thesis
  proof (cases "py_in ''vector_clock'' (body req)")
    case (Inl e)
    with True assms show ?thesis by (auto simp: do_POST_def)
  next
    case (Inr present)
    note p = do_POST_truthy [OF True Inr, of py sc]
    show ?thesis
    proof (cases "path req = ''/add'' \<or> path req = ''/multiply''")
      case True
      with assms(1) show ?thesis unfolding p Let_def by auto
    next
      case False
      with assms show ?thesis unfolding p Let_def by auto
    qed
  qed
qed

text \<open>So the server's clock stays a clock of the data model, whatever the requests hold.\<close>

lemma nonneg_do_POST: "nonneg (clock sc) \<Longrightarrow> nonneg (clock (fst (do_POST py sc req)))"
proof (cases "truthy (body req)")
  case False
  assume "nonneg (clock sc)"
  with False show ?thesis by (simp add: do_POST_def)
next
  case True
  assume c: "nonneg (clock sc)"
  show ?thesis
  proof (cases "py_in ''vector_clock'' (body req)")
    case (Inl e)
    with True c show ?thesis by (simp add: do_POST_def)
  next
    case (Inr present)
    have "nonneg (clock (fst (merge_client py sc (body req))))"
      using c by (auto simp: merge_client_def nonneg_update split: sum.splits)
    with c have "nonneg (clock (fst (if present then merge_client py sc (body req) else (sc, None))))"
      by simp
    then show ?thesis
      unfolding do_POST_truthy [OF True Inr] by (simp add: Let_def nonneg_increment)
  qed
qed

lemmas handler_defs =
  do_POST_def merge_client_def operation_def validate_operands_def must_be_numbers_def
  float_overflows_def from_dict_def VectorClock_init_def update_def update_item_def
  increment_def compare_def to_dict_def contains_def getitem_def dict_get_def
  RpcHandler_server_clock_def no_str_def Let_def

text \<open>
  C4, as the code has it. The results of \<open>compare\<close> are exactly the four strings
  \<open>happens-before\<close>, \<open>happens-after\<close>, \<open>equal\<close> and \<open>concurrent\<close>, and the relationship in the
  causality block of every response that has one is one of these or \<open>no_client_clock\<close>.
\<close>

theorem relationship_labels:
  "(\<lambda>(a, b). compare a b) ` UNIV = {''happens-before'', ''happens-after'', ''equal'', ''concurrent''} \<and>
   (snd (do_POST py sc req) = Inr r \<and> causality r = Some c \<longrightarrow>
      relationship c \<in> {''happens-before'', ''happens-after'', ''equal'', ''concurrent'',
                         ''no_client_clock''})"
proof -
  let ?c = "\<lambda>x y. \<lparr>node_id = ''n'', clock = [(''A'', x), (''B'', y :: int)]\<rparr>"
  have 1: "compare (?c 0 0) (?c 1 0) = ''happens-before''"
    and 2: "compare (?c 1 0) (?c 0 0) = ''happens-after''"
    and 3: "compare (?c 0 0) (?c 0 0) = ''equal''"
    and 4: "compare (?c 1 0) (?c 0 1) = ''concurrent''"
    by (simp_all add: compare_def dict_get_def)
  have in_range: "compare x y \<in> (\<lambda>(a, b). compare a b) ` UNIV" for x y
    using rangeI [of "\<lambda>(a, b). compare a b" "(x, y)"] by (simp only: prod.case)
  have "{''happens-before'', ''happens-after'', ''equal'', ''concurrent''}
          \<subseteq> (\<lambda>(a, b). compare a b) ` UNIV"
    using in_range [of "?c 0 0" "?c 1 0"] in_range [of "?c 1 0" "?c 0 0"]
      in_range [of "?c 0 0" "?c 0 0"] in_range [of "?c 1 0" "?c 0 1"]
    unfolding 1 2 3 4 by blast
  moreover have "(\<lambda>(a, b). compare a b) ` UNIV
          \<subseteq> {''happens-before'', ''happens-after'', ''equal'', ''concurrent''}"
    using compare_labels by auto
  ultimately have r: "(\<lambda>(a, b). compare a b) ` UNIV
          = {''happens-before'', ''happens-after'', ''equal'', ''concurrent''}"
    by (rule subset_antisym [rotated])
  have "relationship c \<in> {''happens-before'', ''happens-after'', ''equal'', ''concurrent'',
                         ''no_client_clock''}"
    if "snd (do_POST py sc req) = Inr r" "causality r = Some c"
  proof -
    from that obtain sc2 cl where "operation py sc2 cl (body req) = Inr r"
      using do_POST_response by blast
    then show ?thesis using that(2) by (rule operation_relationship)
  qed
  with r show ?thesis by blast
qed

theorem relationship_labels_witness:
  "snd (do_POST no_str RpcHandler_server_clock
          \<lparr>path = ''/add'', body = JObj [(''x'', JInt 1), (''y'', JInt 2)]\<rparr>)
     = Inr \<lparr>status = 200, error = None, vector_clock = Some [(''server'', 1)],
            causality = Some \<lparr>server_clock = [(''server'', 1)], client_clock = None,
                              relationship = ''no_client_clock''\<rparr>\<rparr> \<and>
   causality \<lparr>status = 200, error = None, vector_clock = Some [(''server'', 1)],
            causality = Some \<lparr>server_clock = [(''server'', 1)], client_clock = None,
                              relationship = ''no_client_clock''\<rparr>\<rparr>
     = Some \<lparr>server_clock = [(''server'', 1)], client_clock = None,
              relationship = ''no_client_clock''\<rparr> \<and>
   relationship \<lparr>server_clock = [(''server'', 1)], client_clock = None,
              relationship = ''no_client_clock''\<rparr>
     \<in> {''happens-before'', ''happens-after'', ''equal'', ''concurrent'', ''no_client_clock''}"
proof -
  have 1: "snd (do_POST no_str RpcHandler_server_clock
          \<lparr>path = ''/add'', body = JObj [(''x'', JInt 1), (''y'', JInt 2)]\<rparr>)
     = Inr \<lparr>status = 200, error = None, vector_clock = Some [(''server'', 1)],
            causality = Some \<lparr>server_clock = [(''server'', 1)], client_clock = None,
                              relationship = ''no_client_clock''\<rparr>\<rparr>"
    by (simp add: handler_defs)
  have 2: "causality \<lparr>status = 200, error = None, vector_clock = Some [(''server'', 1)],
            causality = Some \<lparr>server_clock = [(''server'', 1)], client_clock = None,
                              relationship = ''no_client_clock''\<rparr>\<rparr>
     = Some \<lparr>server_clock = [(''server'', 1)], client_clock = None,
              relationship = ''no_client_clock''\<rparr>"
    by simp
  from 1 2 relationship_labels
    [of no_str RpcHandler_server_clock
        "\<lparr>path = ''/add'', body = JObj [(''x'', JInt 1), (''y'', JInt 2)]\<rparr>"
        "\<lparr>status = 200, error = None, vector_clock = Some [(''server'', 1)],
            causality = Some \<lparr>server_clock = [(''server'', 1)], client_clock = None,
                              relationship = ''no_client_clock''\<rparr>\<rparr>"
        "\<lparr>server_clock = [(''server'', 1)], client_clock = None,
              relationship = ''no_client_clock''\<rparr>"]
  show ?thesis by blast
qed

text \<open>
  C4 as stated fails: the relationship sent for a client's first request is the string
  \<open>happens-after\<close>, which is none of \<open>before\<close>, \<open>after\<close>, \<open>equal\<close>, \<open>concurrent\<close>,
  \<open>no_client_clock\<close>.
\<close>

theorem relationship_label_not_in_spec_set:
  "snd (do_POST no_str RpcHandler_server_clock
          \<lparr>path = ''/multiply'',
           body = JObj [(''x'', JInt 3), (''y'', JInt 4),
                        (''vector_clock'', JObj [(''client1'', JInt 1), (''server'', JInt 0)])]\<rparr>)
     = Inr \<lparr>status = 200, error = None,
            vector_clock = Some [(''server'', 1), (''client1'', 1)],
            causality = Some \<lparr>server_clock = [(''server'', 1), (''client1'', 1)],
                              client_clock = Some [(''client1'', 1), (''server'', 0)],
                              relationship = ''happens-after''\<rparr>\<rparr> \<and>
   ''happens-after'' \<notin> {''before'', ''after'', ''equal'', ''concurrent'', ''no_client_clock''}"
  by (simp add: handler_defs)

lemma do_POST_clock_dict:
  assumes "body req = JObj kvs" "map_of kvs ''vector_clock'' = Some data"
  shows "do_POST py sc req =
     (let m = (case from_dict py data ''client'' of
                 Inl e \<Rightarrow> (sc, None) | Inr cc \<Rightarrow> (update sc cc, Some cc));
          sc2 = increment (fst m) None
      in (sc2, if path req = ''/add'' \<or> path req = ''/multiply''
               then operation py sc2 (snd m) (body req)
               else Inr \<lparr>status = 404, error = Some ''Not found'',
                         vector_clock = Some (to_dict sc2), causality = None\<rparr>))"
proof -
  from assms(2) have c: "contains kvs ''vector_clock''" and g: "getitem kvs ''vector_clock'' = data"
    by (simp_all add: map_of_contains)
  from c have "kvs \<noteq> []" by (auto simp: contains_def)
  with assms(1) have t: "truthy (body req)" by simp
  from assms(1) c have p: "py_in ''vector_clock'' (body req) = Inr True" by simp
  show ?thesis
    unfolding do_POST_truthy [OF t p] by (simp add: assms(1) merge_client_dict g)
qed








text \<open>
  C9. The server starts from the clock \<open>{server: 0}\<close>. Handling a well-formed request
  (a JSON object with valid operands, on \<open>/add\<close> or \<open>/multiply\<close>) that carries the clock
  \<open>{A: 2, B: 1}\<close> leaves the server's clock at exactly \<open>{A: 2, B: 1, server: 1}\<close> (held in
  the order server, A, B): the merge, then one increment of the server's own counter. The
  relationship sent, which is that clock compared with the submitted \<open>{A: 2, B: 1}\<close>, is
  after (the string \<open>happens-after\<close>).
\<close>

theorem scenario_merge_then_increment:
  assumes "body req = JObj kvs"
    "map_of kvs ''vector_clock'' = Some (JObj [(''A'', JInt 2), (''B'', JInt 1)])"
    "validate_operands py (JObj kvs) = Inr Valid"
    "path req = ''/add'' \<or> path req = ''/multiply''"
  shows "do_POST py RpcHandler_server_clock req
     = (\<lparr>node_id = ''server'', clock = [(''server'', 1), (''A'', 2), (''B'', 1)]\<rparr>,
        Inr \<lparr>status = 200, error = None,
             vector_clock = Some [(''server'', 1), (''A'', 2), (''B'', 1)],
             causality = Some \<lparr>server_clock = [(''server'', 1), (''A'', 2), (''B'', 1)],
                               client_clock = Some [(''A'', 2), (''B'', 1)],
                               relationship = ''happens-after''\<rparr>\<rparr>) \<and>
     map_of [(''server'', 1), (''A'', 2), (''B'', 1)] = [''A'' \<mapsto> 2, ''B'' \<mapsto> 1, ''server'' \<mapsto> (1::int)] \<and>
     compare \<lparr>node_id = ''server'', clock = [(''server'', 1), (''A'', 2), (''B'', 1)]\<rparr>
             \<lparr>node_id = ''client'', clock = [(''A'', 2), (''B'', 1)]\<rparr> = ''happens-after''"
proof -
  have f: "from_dict py (JObj [(''A'', JInt 2), (''B'', JInt 1)]) ''client''
             = Inr \<lparr>node_id = ''client'', clock = [(''A'', 2), (''B'', 1)]\<rparr>"
    by (simp add: from_dict_def VectorClock_init_def)
  have u: "increment (update RpcHandler_server_clock
             \<lparr>node_id = ''client'', clock = [(''A'', 2), (''B'', 1)]\<rparr>) None
           = \<lparr>node_id = ''server'', clock = [(''server'', 1), (''A'', 2), (''B'', 1)]\<rparr>"
    by (simp add: RpcHandler_server_clock_def VectorClock_init_def update_def update_item_def
        increment_def contains_def getitem_def Let_def)
  have c: "compare \<lparr>node_id = ''server'', clock = [(''server'', 1), (''A'', 2), (''B'', 1)]\<rparr>
             \<lparr>node_id = ''client'', clock = [(''A'', 2), (''B'', 1)]\<rparr> = ''happens-after''"
    by (simp add: compare_def dict_get_def)
  have 1: "do_POST py RpcHandler_server_clock req
     = (\<lparr>node_id = ''server'', clock = [(''server'', 1), (''A'', 2), (''B'', 1)]\<rparr>,
        Inr \<lparr>status = 200, error = None,
             vector_clock = Some [(''server'', 1), (''A'', 2), (''B'', 1)],
             causality = Some \<lparr>server_clock = [(''server'', 1), (''A'', 2), (''B'', 1)],
                               client_clock = Some [(''A'', 2), (''B'', 1)],
                               relationship = ''happens-after''\<rparr>\<rparr>)"
    unfolding do_POST_clock_dict [OF assms(1,2)]
    using assms(4) by (simp add: f u c Let_def operation_def assms(1,3) to_dict_def)
  have 2: "map_of [(''server'', 1), (''A'', 2), (''B'', 1)]
             = [''A'' \<mapsto> 2, ''B'' \<mapsto> 1, ''server'' \<mapsto> (1::int)]"
    by (auto simp: fun_eq_iff)
  from 1 2 c show ?thesis by blast
qed

theorem scenario_merge_then_increment_witness:
  "body \<lparr>path = ''/add'',
         body = JObj [(''x'', JInt 2), (''y'', JInt 3),
                      (''vector_clock'', JObj [(''A'', JInt 2), (''B'', JInt 1)])]\<rparr>
     = JObj [(''x'', JInt 2), (''y'', JInt 3),
             (''vector_clock'', JObj [(''A'', JInt 2), (''B'', JInt 1)])] \<and>
   map_of [(''x'', JInt 2), (''y'', JInt 3),
           (''vector_clock'', JObj [(''A'', JInt 2), (''B'', JInt 1)])] ''vector_clock''
     = Some (JObj [(''A'', JInt 2), (''B'', JInt 1)]) \<and>
   validate_operands no_str
     (JObj [(''x'', JInt 2), (''y'', JInt 3),
            (''vector_clock'', JObj [(''A'', JInt 2), (''B'', JInt 1)])]) = Inr Valid \<and>
   do_POST no_str RpcHandler_server_clock
     \<lparr>path = ''/add'',
      body = JObj [(''x'', JInt 2), (''y'', JInt 3),
                   (''vector_clock'', JObj [(''A'', JInt 2), (''B'', JInt 1)])]\<rparr>
     = (\<lparr>node_id = ''server'', clock = [(''server'', 1), (''A'', 2), (''B'', 1)]\<rparr>,
        Inr \<lparr>status = 200, error = None,
             vector_clock = Some [(''server'', 1), (''A'', 2), (''B'', 1)],
             causality = Some \<lparr>server_clock = [(''server'', 1), (''A'', 2), (''B'', 1)],
                               client_clock = Some [(''A'', 2), (''B'', 1)],
                               relationship = ''happens-after''\<rparr>\<rparr>)"
proof -
  let ?kvs = "[(''x'', JInt 2), (''y'', JInt 3),
               (''vector_clock'', JObj [(''A'', JInt 2), (''B'', JInt 1)])]"
  let ?req = "\<lparr>path = ''/add'', body = JObj ?kvs\<rparr>"
  have 1: "body ?req = JObj ?kvs" by simp
  have 2: "map_of ?kvs ''vector_clock'' = Some (JObj [(''A'', JInt 2), (''B'', JInt 1)])"
    by simp
  have 3: "validate_operands no_str (JObj ?kvs) = Inr Valid"
    by (simp add: validate_operands_def contains_def getitem_def float_overflows_def)
  have 4: "path ?req = ''/add'' \<or> path ?req = ''/multiply''" by simp
  from 1 2 3 scenario_merge_then_increment [OF 1 2 3 4] show ?thesis by blast
qed

end
